theory Spec2Isabelle
  imports Main "HOL-Library.AList"
begin

section \<open>Shared usage fetcher (usage\_fetcher.py)\<close>

text \<open>
  A shallow embedding of \<^verbatim>\<open>usage_fetcher.py\<close>: the string operations the parser relies
  on, the dictionary it builds, the fetcher object with its six state fields, one fetch
  attempt as a state transformer, and the display projection.

  Modelling decisions.
  \<^item> A Python \<^verbatim>\<open>str\<close> is a \<open>string\<close>; a \<open>char\<close> stands for a code point below 256.
  \<^item> A Python \<^verbatim>\<open>dict\<close> is an association list in insertion order with pairwise
    different keys; assignment \<^verbatim>\<open>d[k] = v\<close> overwrites in place or appends at the end.
  \<^item> \<^verbatim>\<open>datetime.now()\<close> reads a clock: a function from the number of earlier readings
    to the time read.
  \<^item> The callback \<^verbatim>\<open>on_update\<close> is an external collaborator; its invocations are
    recorded in order, and it is taken to return normally.
  \<^item> \<open>do_fetch\<close> is one fetch attempt run from start to end without interruption. The
    threads that \<^verbatim>\<open>fetch_async\<close> starts are modelled separately, statement by statement,
    with every interleaving of their statements.
\<close>

subsection \<open>Python string operations\<close>

text \<open>\<^verbatim>\<open>str.isspace\<close> on one character, for the code points below 256.\<close>

definition isspace :: "char \<Rightarrow> bool" where
  "isspace c = (of_char c \<in> {9::nat, 10, 11, 12, 13, 28, 29, 30, 31, 32, 133, 160})"

text \<open>\<^verbatim>\<open>s.strip()\<close>: drop the whitespace at both ends.\<close>

definition strip :: "string \<Rightarrow> string" where
  "strip s = rev (dropWhile isspace (rev (dropWhile isspace s)))"

text \<open>\<^verbatim>\<open>s.split('\n')\<close>: cut at every newline; a string with \<open>n\<close> newlines gives
  \<open>n + 1\<close> pieces, the empty string gives one empty piece.\<close>

fun split_nl :: "string \<Rightarrow> string list" where
  "split_nl [] = [[]]"
| "split_nl (c # cs) =
     (if c = CHR 0x0A then [] # split_nl cs
      else (case split_nl cs of [] \<Rightarrow> [[c]] | l # ls \<Rightarrow> (c # l) # ls))"

text \<open>\<^verbatim>\<open>line.split('=', 1)\<close>: at most one cut, at the first \<^verbatim>\<open>=\<close>.\<close>

definition split_eq1 :: "string \<Rightarrow> string list" where
  "split_eq1 line =
     (if CHR ''='' \<in> set line
      then [takeWhile (\<lambda>c. c \<noteq> CHR ''='') line, tl (dropWhile (\<lambda>c. c \<noteq> CHR ''='') line)]
      else [line])"

text \<open>\<^verbatim>\<open>line.startswith('#')\<close>.\<close>

definition startswith_hash :: "string \<Rightarrow> bool" where
  "startswith_hash line = (case line of [] \<Rightarrow> False | c # _ \<Rightarrow> c = CHR ''#'')"

text \<open>\<^verbatim>\<open>s.replace('\n', ' ')\<close>.\<close>

definition replace_nl :: "string \<Rightarrow> string" where
  "replace_nl s = map (\<lambda>c. if c = CHR 0x0A then CHR '' '' else c) s"

text \<open>Decimal rendering of integers, as an f-string does it.\<close>

definition digit_char :: "nat \<Rightarrow> char" where
  "digit_char d = ''0123456789'' ! d"

fun str_nat :: "nat \<Rightarrow> string" where
  "str_nat n = (if n < 10 then [digit_char n] else str_nat (n div 10) @ [digit_char (n mod 10)])"

declare str_nat.simps [simp del]

definition str_int :: "int \<Rightarrow> string" where
  "str_int i = (if i < 0 then CHR ''-'' # str_nat (nat (- i)) else str_nat (nat i))"

subsection \<open>Dictionaries\<close>

type_synonym dict = "(string \<times> string) list"

text \<open>\<^verbatim>\<open>d[k] = v\<close>.\<close>

definition dict_set :: "string \<Rightarrow> string \<Rightarrow> dict \<Rightarrow> dict" where
  "dict_set k v d = AList.update k v d"

text \<open>\<^verbatim>\<open>d.get(k)\<close> and \<^verbatim>\<open>d.get(k, default)\<close>.\<close>

definition dict_get :: "dict \<Rightarrow> string \<Rightarrow> string option" where
  "dict_get d k = map_of d k"

definition dict_get_default :: "dict \<Rightarrow> string \<Rightarrow> string \<Rightarrow> string" where
  "dict_get_default d k dflt = (case map_of d k of None \<Rightarrow> dflt | Some v \<Rightarrow> v)"

subsection \<open>The parsing loop of \_parse\_output\<close>

datatype py_error = ValueError string

text \<open>
  One iteration of the loop body:
  \<^verbatim>\<open>
  if '=' in line and not line.startswith('#'):
      key, value = line.split('=', 1)
      data[key.strip()] = value.strip()
  \<close>
  Unpacking anything but two pieces raises \<^verbatim>\<open>ValueError\<close>.
\<close>

definition parse_line :: "string \<Rightarrow> dict \<Rightarrow> py_error + dict" where
  "parse_line line data =
     (if CHR ''='' \<in> set line \<and> \<not> startswith_hash line then
        (case split_eq1 line of
           [key, val] \<Rightarrow> Inr (dict_set (strip key) (strip val) data)
         | [] \<Rightarrow> Inl (ValueError ''not enough values to unpack (expected 2, got 0)'')
         | [_] \<Rightarrow> Inl (ValueError ''not enough values to unpack (expected 2, got 1)'')
         | _ \<Rightarrow> Inl (ValueError ''too many values to unpack (expected 2)''))
      else Inr data)"

fun parse_lines :: "string list \<Rightarrow> dict \<Rightarrow> py_error + dict" where
  "parse_lines [] data = Inr data"
| "parse_lines (line # rest) data =
     (case parse_line line data of Inl e \<Rightarrow> Inl e | Inr data' \<Rightarrow> parse_lines rest data')"

text \<open>\<^verbatim>\<open>data = {}; for line in output.strip().split('\n'): ...\<close>\<close>

definition parse_data :: "string \<Rightarrow> py_error + dict" where
  "parse_data output = parse_lines (split_nl (strip output)) []"

text \<open>\<^verbatim>\<open>session_remaining != '??' and weekly_remaining != '??'\<close>, both read with
  default \<^verbatim>\<open>'??'\<close>.\<close>

definition has_valid_data :: "dict \<Rightarrow> bool" where
  "has_valid_data data =
     (dict_get_default data ''SESSION_REMAINING'' ''??'' \<noteq> ''??'' \<and>
      dict_get_default data ''WEEKLY_REMAINING'' ''??'' \<noteq> ''??'')"

subsection \<open>Clock and timestamps\<close>

record datetime =
  year :: nat
  month :: nat
  day :: nat
  hour :: nat
  minute :: nat
  second :: nat
  microsecond :: nat

type_synonym clock = "nat \<Rightarrow> datetime"

text \<open>A two-digit field of \<^verbatim>\<open>strftime\<close>, padded with a zero.\<close>

definition pad2 :: "nat \<Rightarrow> string" where
  "pad2 n = (if n < 10 then CHR ''0'' # str_nat n else str_nat n)"

text \<open>\<^verbatim>\<open>t.strftime('%H:%M:%S')\<close>.\<close>

definition strftime_HMS :: "datetime \<Rightarrow> string" where
  "strftime_HMS t = pad2 (hour t) @ '':'' @ pad2 (minute t) @ '':'' @ pad2 (second t)"

subsection \<open>The fetcher object\<close>

text \<open>The dictionary handed to the callback by \<^verbatim>\<open>_notify_update\<close>.\<close>

record update =
  u_data :: "dict option"
  u_is_stale :: bool
  u_error :: "string option"
  u_status :: string
  u_fetch_count :: nat
  u_last_successful_fetch :: "datetime option"
  u_is_fetching :: bool

text \<open>How a callback invocation was made: \<^verbatim>\<open>self.on_update(state)\<close> or
  \<^verbatim>\<open>self._schedule_on_main_thread(self.on_update, state)\<close>.\<close>

datatype delivery = Direct | Scheduled

text \<open>
  The fields of \<^verbatim>\<open>UsageFetcher\<close>. \<open>on_update\<close> and \<open>schedule_on_main_thread\<close> say
  whether the callable is set. The last two fields are the environment: the callback
  invocations made so far, oldest first, and the number of clock readings taken.
\<close>

record UsageFetcher =
  on_update :: bool
  last_good_data :: "dict option"
  last_successful_fetch :: "datetime option"
  last_error :: "string option"
  fetch_count :: nat
  is_fetching :: bool
  is_stale :: bool
  schedule_on_main_thread :: bool
  notified :: "(delivery \<times> update) list"
  now_calls :: nat

text \<open>\<^verbatim>\<open>UsageFetcher.__init__\<close>.\<close>

definition init :: "bool \<Rightarrow> UsageFetcher" where
  "init cb =
     \<lparr> on_update = cb,
       last_good_data = None,
       last_successful_fetch = None,
       last_error = None,
       fetch_count = 0,
       is_fetching = False,
       is_stale = False,
       schedule_on_main_thread = False,
       notified = [],
       now_calls = 0 \<rparr>"


text \<open>\<^verbatim>\<open>datetime.now()\<close>.\<close>

definition now :: "clock \<Rightarrow> UsageFetcher \<Rightarrow> datetime \<times> UsageFetcher" where
  "now clk self = (clk (now_calls self), self\<lparr>now_calls := now_calls self + 1\<rparr>)"

text \<open>\<^verbatim>\<open>error or self.last_error\<close>: an absent or empty first operand gives the second.\<close>

definition error_or :: "string option \<Rightarrow> string option \<Rightarrow> string option" where
  "error_or error dflt = (case error of None \<Rightarrow> dflt | Some e \<Rightarrow> if e = [] then dflt else Some e)"

definition snapshot :: "string \<Rightarrow> string option \<Rightarrow> UsageFetcher \<Rightarrow> update" where
  "snapshot status error self =
     \<lparr> u_data = last_good_data self,
       u_is_stale = is_stale self,
       u_error = error_or error (last_error self),
       u_status = status,
       u_fetch_count = fetch_count self,
       u_last_successful_fetch = last_successful_fetch self,
       u_is_fetching = is_fetching self \<rparr>"

text \<open>\<^verbatim>\<open>_notify_update\<close>.\<close>

definition notify_update :: "string \<Rightarrow> string option \<Rightarrow> UsageFetcher \<Rightarrow> UsageFetcher" where
  "notify_update status error self =
     (if \<not> on_update self then self
      else if schedule_on_main_thread self
      then self\<lparr>notified := notified self @ [(Scheduled, snapshot status error self)]\<rparr>
      else self\<lparr>notified := notified self @ [(Direct, snapshot status error self)]\<rparr>)"

text \<open>\<^verbatim>\<open>str(e)\<close> of the exception caught in \<^verbatim>\<open>_parse_output\<close>.\<close>

fun str_error :: "py_error \<Rightarrow> string" where
  "str_error (ValueError msg) = msg"

text \<open>\<^verbatim>\<open>_parse_output\<close>.\<close>

definition parse_output :: "clock \<Rightarrow> string \<Rightarrow> nat \<Rightarrow> UsageFetcher \<Rightarrow> UsageFetcher" where
  "parse_output clk output fetch_num self =
     (case parse_data output of
        Inr data \<Rightarrow>
          if has_valid_data data then
            (let s1 = self\<lparr>last_good_data := Some data\<rparr>;
                 (t1, s2) = now clk s1;
                 s3 = s2\<lparr>last_successful_fetch := Some t1\<rparr>;
                 s4 = s3\<lparr>is_stale := False\<rparr>;
                 s5 = s4\<lparr>last_error := None\<rparr>;
                 (t2, s6) = now clk s5
             in notify_update (''OK (fetch #'' @ str_nat fetch_num @ '') @ '' @ strftime_HMS t2) None s6)
          else
            (let s1 = self\<lparr>last_error :=
                        Some (''Got ?? values (parsed '' @ str_nat (length data) @ '' keys)'')\<rparr>;
                 s2 = s1\<lparr>is_stale := True\<rparr>;
                 (t, s3) = now clk s2
             in notify_update (''Invalid data @ '' @ strftime_HMS t) (last_error s3) s3)
      | Inl e \<Rightarrow>
          (let s1 = self\<lparr>last_error := Some (''Parse error: '' @ str_error e)\<rparr>;
               s2 = s1\<lparr>is_stale := True\<rparr>;
               (t, s3) = now clk s2
           in notify_update (''Parse error @ '' @ strftime_HMS t) (last_error s3) s3))"

text \<open>
  What \<^verbatim>\<open>subprocess.run\<close> did: it returned a completed process (return code, stdout,
  stderr), raised \<^verbatim>\<open>TimeoutExpired\<close>, or raised another exception (the name of its type
  and its message).
\<close>

datatype run_result =
    Completed int string string
  | TimeoutExpired
  | Raised string string

text \<open>
  \<^verbatim>\<open>result.stderr[:100].replace('\n', ' ') if result.stderr else "no stderr"\<close>
\<close>

definition stderr_preview :: "string \<Rightarrow> string" where
  "stderr_preview stderr = (if stderr \<noteq> [] then replace_nl (take 100 stderr) else ''no stderr'')"

text \<open>\<^verbatim>\<open>_do_fetch\<close>, given what the subprocess call does.\<close>

definition do_fetch :: "clock \<Rightarrow> run_result \<Rightarrow> UsageFetcher \<Rightarrow> UsageFetcher" where
  "do_fetch clk result self =
     (let s1 = self\<lparr>fetch_count := fetch_count self + 1\<rparr>;
          s2 = s1\<lparr>is_fetching := True\<rparr>;
          fetch_num = fetch_count s2;
          (start_time, s3) = now clk s2;
          s4 = notify_update
                 (''Fetching #'' @ str_nat fetch_num @ '' (started '' @ strftime_HMS start_time @ '')...'')
                 None s3
      in case result of
           Completed returncode stdout stderr \<Rightarrow>
             (let s5 = s4\<lparr>is_fetching := False\<rparr> in
              if returncode \<noteq> 0 then
                (let s6 = s5\<lparr>last_error :=
                            Some (''Script exit '' @ str_int returncode @ '': '' @ stderr_preview stderr)\<rparr>;
                     s7 = s6\<lparr>is_stale := True\<rparr>;
                     (t, s8) = now clk s7
                 in notify_update (''Error @ '' @ strftime_HMS t) (last_error s8) s8)
              else parse_output clk stdout fetch_num s5)
         | TimeoutExpired \<Rightarrow>
             (let s5 = s4\<lparr>is_fetching := False\<rparr>;
                  s6 = s5\<lparr>last_error := Some ''Timeout after 90s''\<rparr>;
                  s7 = s6\<lparr>is_stale := True\<rparr>;
                  (t, s8) = now clk s7
              in notify_update (''Timeout @ '' @ strftime_HMS t) (last_error s8) s8)
         | Raised type_name msg \<Rightarrow>
             (let s5 = s4\<lparr>is_fetching := False\<rparr>;
                  s6 = s5\<lparr>last_error := Some (type_name @ '': '' @ msg)\<rparr>;
                  s7 = s6\<lparr>is_stale := True\<rparr>;
                  (t, s8) = now clk s7
              in notify_update (''Error @ '' @ strftime_HMS t) (last_error s8) s8))"


subsection \<open>Display projection\<close>

record DisplayValues =
  session_remaining :: string
  weekly_remaining :: string
  time_remaining_str :: "string option"
  confidence :: "string option"
  session_resets :: "string option"
  weekly_resets :: "string option"
  exhausts_before_reset :: bool
  account_email :: "string option"
  plan_type :: "string option"
  extra_pct :: "string option"

text \<open>\<^verbatim>\<open>get_display_values\<close>; \<^verbatim>\<open>not data\<close> holds for \<^verbatim>\<open>None\<close> and for the empty
  dictionary.\<close>

definition get_display_values :: "dict option \<Rightarrow> DisplayValues" where
  "get_display_values data =
     (case data of
        None \<Rightarrow>
          \<lparr> session_remaining = ''--'', weekly_remaining = ''--'',
            time_remaining_str = None, confidence = None,
            session_resets = None, weekly_resets = None,
            exhausts_before_reset = False,
            account_email = None, plan_type = None, extra_pct = None \<rparr>
      | Some d \<Rightarrow>
          if d = [] then
            \<lparr> session_remaining = ''--'', weekly_remaining = ''--'',
              time_remaining_str = None, confidence = None,
              session_resets = None, weekly_resets = None,
              exhausts_before_reset = False,
              account_email = None, plan_type = None, extra_pct = None \<rparr>
          else
            \<lparr> session_remaining = dict_get_default d ''SESSION_REMAINING'' ''??'',
              weekly_remaining = dict_get_default d ''WEEKLY_REMAINING'' ''??'',
              time_remaining_str = dict_get d ''TIME_REMAINING_STR'',
              confidence = dict_get d ''CONFIDENCE'',
              session_resets = dict_get d ''SESSION_RESETS'',
              weekly_resets = dict_get d ''WEEKLY_RESETS'',
              exhausts_before_reset = (dict_get d ''EXHAUSTS_BEFORE_RESET'' = Some ''true''),
              account_email = dict_get d ''ACCOUNT_EMAIL'',
              plan_type = dict_get d ''PLAN_TYPE'',
              extra_pct = dict_get d ''EXTRA_USED'' \<rparr>)"

subsection \<open>The parser and the round trip in the words of the specification\<close>

text \<open>
  The parser as the specification describes it (section 4.2), to be compared with
  \<open>parse_data\<close>: a line is skipped when it is empty, starts with \<^verbatim>\<open>#\<close> or has no
  \<^verbatim>\<open>=\<close>; any other line is cut at its first \<^verbatim>\<open>=\<close> and both parts are trimmed.
\<close>

definition spec_entry :: "string \<Rightarrow> (string \<times> string) option" where
  "spec_entry line =
     (if line = [] \<or> startswith_hash line \<or> CHR ''='' \<notin> set line then None
      else Some (strip (takeWhile (\<lambda>c. c \<noteq> CHR ''='') line),
                 strip (drop 1 (dropWhile (\<lambda>c. c \<noteq> CHR ''='') line))))"

text \<open>The mapping of the entries of all lines; of two entries with one key the later
  one counts.\<close>

definition spec_parse :: "string \<Rightarrow> (string \<rightharpoonup> string)" where
  "spec_parse input = map_of (rev (List.map_filter spec_entry (split_nl input)))"

text \<open>
  The serialization of the round-trip property (section 8): one \<^verbatim>\<open>KEY=value\<close> line per
  entry. The repository has no serializer; this follows the specification's words.
\<close>

definition spec_serialize :: "dict \<Rightarrow> string" where
  "spec_serialize m = concat (map (\<lambda>(k, v). k @ ''='' @ v @ [CHR 0x0A]) m)"

text \<open>A key without \<^verbatim>\<open>=\<close> and without newline.\<close>

definition key_plain :: "string \<Rightarrow> bool" where
  "key_plain k = (CHR ''='' \<notin> set k \<and> CHR 0x0A \<notin> set k)"

text \<open>An entry that the round trip preserves: the key is plain, does not start with
  \<^verbatim>\<open>#\<close> and has no whitespace at either end; the value has no newline and no whitespace
  at either end.\<close>

definition roundtrip_entry :: "string \<times> string \<Rightarrow> bool" where
  "roundtrip_entry kv = (case kv of (k, v) \<Rightarrow>
     key_plain k \<and> \<not> startswith_hash k \<and> strip k = k \<and> CHR 0x0A \<notin> set v \<and> strip v = v)"

subsection \<open>Vocabulary of the fetch properties\<close>

text \<open>Both mandatory fields are present with a value other than \<^verbatim>\<open>"??"\<close>.\<close>

definition mandatory_ok :: "dict \<Rightarrow> bool" where
  "mandatory_ok d =
     ((case map_of d ''SESSION_REMAINING'' of None \<Rightarrow> False | Some v \<Rightarrow> v \<noteq> ''??'') \<and>
      (case map_of d ''WEEKLY_REMAINING'' of None \<Rightarrow> False | Some v \<Rightarrow> v \<noteq> ''??''))"


text \<open>A failed attempt: non-zero exit, timeout, launch failure, or output that is
  unparseable or invalid.\<close>

fun attempt_fails :: "run_result \<Rightarrow> bool" where
  "attempt_fails (Completed returncode stdout stderr) =
     (returncode \<noteq> 0 \<or>
      (case parse_data stdout of Inl e \<Rightarrow> True | Inr d \<Rightarrow> \<not> mandatory_ok d))"
| "attempt_fails TimeoutExpired = True"
| "attempt_fails (Raised type_name msg) = True"

text \<open>The route a notification takes, and the notification every attempt sends first
  (status \<^verbatim>\<open>"Fetching #<n> (started <HH:MM:SS>)..."\<close>, state otherwise as before the
  attempt but for the incremented count and the in-flight flag).\<close>

definition delivery_of :: "UsageFetcher \<Rightarrow> delivery" where
  "delivery_of self = (if schedule_on_main_thread self then Scheduled else Direct)"

definition fetching_update :: "clock \<Rightarrow> UsageFetcher \<Rightarrow> update" where
  "fetching_update clk self =
     \<lparr> u_data = last_good_data self, u_is_stale = is_stale self, u_error = last_error self,
       u_status = ''Fetching #'' @ str_nat (fetch_count self + 1) @ '' (started '' @
                  strftime_HMS (clk (now_calls self)) @ '')...'',
       u_fetch_count = fetch_count self + 1,
       u_last_successful_fetch = last_successful_fetch self,
       u_is_fetching = True \<rparr>"

subsection \<open>Overlapping fetch attempts\<close>

text \<open>
  \<^verbatim>\<open>fetch_async\<close> starts one thread per call and nothing serialises the threads, so the
  statements of several \<^verbatim>\<open>_do_fetch\<close> activations interleave. The statements of
  \<^verbatim>\<open>_do_fetch\<close> and \<^verbatim>\<open>_parse_output\<close> that read or write the fetcher, one constructor each;
  \<^verbatim>\<open>self.fetch_count += 1\<close> is a read followed by a write. Reading the clock and building
  and delivering one notification are one step each.
\<close>

datatype stmt =
    LoadCount
  | StoreCount
  | SetFetching bool
  | LoadFetchNum
  | LoadStartTime
  | NotifyFetching
  | RunScript
  | SetLastError "string option"
  | SetStale bool
  | SetGoodData dict
  | SetSuccessTime
  | NotifyOK
  | NotifyFailure string

text \<open>Lines 70 to 86: the same for every activation.\<close>

definition prologue :: "stmt list" where
  "prologue =
     [LoadCount, StoreCount, SetFetching True, LoadFetchNum, LoadStartTime, NotifyFetching,
      RunScript]"

text \<open>Lines 88 to 140: what follows the subprocess call, by its outcome. Parsing and
  validation touch only the thread's own values.\<close>

fun epilogue :: "run_result \<Rightarrow> stmt list" where
  "epilogue (Completed returncode stdout stderr) =
     SetFetching False #
     (if returncode \<noteq> 0 then
        [SetLastError
           (Some (''Script exit '' @ str_int returncode @ '': '' @ stderr_preview stderr)),
         SetStale True, NotifyFailure ''Error @ '']
      else
        (case parse_data stdout of
           Inr data \<Rightarrow>
             if has_valid_data data then
               [SetGoodData data, SetSuccessTime, SetStale False, SetLastError None, NotifyOK]
             else
               [SetLastError
                  (Some (''Got ?? values (parsed '' @ str_nat (length data) @ '' keys)'')),
                SetStale True, NotifyFailure ''Invalid data @ '']
         | Inl e \<Rightarrow>
             [SetLastError (Some (''Parse error: '' @ str_error e)),
              SetStale True, NotifyFailure ''Parse error @ '']))"
| "epilogue TimeoutExpired =
     [SetFetching False, SetLastError (Some ''Timeout after 90s''), SetStale True,
      NotifyFailure ''Timeout @ '']"
| "epilogue (Raised type_name msg) =
     [SetFetching False, SetLastError (Some (type_name @ '': '' @ msg)), SetStale True,
      NotifyFailure ''Error @ '']"

definition program :: "run_result \<Rightarrow> stmt list" where
  "program r = prologue @ epilogue r"

text \<open>
  One activation of \<^verbatim>\<open>_do_fetch\<close>: what its subprocess call does, the number of statements
  it has executed, the value read by \<^verbatim>\<open>+=\<close>, and the locals \<^verbatim>\<open>fetch_num\<close> and
  \<^verbatim>\<open>start_time\<close>. A local holds a placeholder until it is assigned; every program assigns a
  local before it reads it.
\<close>

record thread =
  t_result :: run_result
  t_pc :: nat
  t_count :: nat
  t_fetch_num :: nat
  t_start_time :: datetime

definition new_thread :: "run_result \<Rightarrow> thread" where
  "new_thread r =
     \<lparr> t_result = r, t_pc = 0, t_count = 0, t_fetch_num = 0,
       t_start_time = \<lparr> year = 0, month = 0, day = 0, hour = 0, minute = 0, second = 0,
                        microsecond = 0 \<rparr> \<rparr>"


definition remaining :: "thread \<Rightarrow> stmt list" where
  "remaining t = drop (t_pc t) (program (t_result t))"

text \<open>One statement, on the thread's locals and the shared fetcher.\<close>

fun exec_stmt :: "clock \<Rightarrow> stmt \<Rightarrow> thread \<Rightarrow> UsageFetcher \<Rightarrow> thread \<times> UsageFetcher" where
  "exec_stmt clk LoadCount t self = (t\<lparr>t_count := fetch_count self\<rparr>, self)"
| "exec_stmt clk StoreCount t self = (t, self\<lparr>fetch_count := t_count t + 1\<rparr>)"
| "exec_stmt clk (SetFetching b) t self = (t, self\<lparr>is_fetching := b\<rparr>)"
| "exec_stmt clk LoadFetchNum t self = (t\<lparr>t_fetch_num := fetch_count self\<rparr>, self)"
| "exec_stmt clk LoadStartTime t self =
     (let (tm, s) = now clk self in (t\<lparr>t_start_time := tm\<rparr>, s))"
| "exec_stmt clk NotifyFetching t self =
     (t, notify_update
           (''Fetching #'' @ str_nat (t_fetch_num t) @ '' (started '' @
            strftime_HMS (t_start_time t) @ '')...'')
           None self)"
| "exec_stmt clk RunScript t self = (t, self)"
| "exec_stmt clk (SetLastError e) t self = (t, self\<lparr>last_error := e\<rparr>)"
| "exec_stmt clk (SetStale b) t self = (t, self\<lparr>is_stale := b\<rparr>)"
| "exec_stmt clk (SetGoodData d) t self = (t, self\<lparr>last_good_data := Some d\<rparr>)"
| "exec_stmt clk SetSuccessTime t self =
     (let (tm, s) = now clk self in (t, s\<lparr>last_successful_fetch := Some tm\<rparr>))"
| "exec_stmt clk NotifyOK t self =
     (let (tm, s) = now clk self
      in (t, notify_update
               (''OK (fetch #'' @ str_nat (t_fetch_num t) @ '') @ '' @ strftime_HMS tm) None s))"
| "exec_stmt clk (NotifyFailure label) t self =
     (let (tm, s) = now clk self
      in (t, notify_update (label @ strftime_HMS tm) (last_error s) s))"

fun assigns_stale :: "stmt \<Rightarrow> bool" where
  "assigns_stale (SetStale b) = True"
| "assigns_stale _ = False"

text \<open>
  The fetcher, the activations started so far, and a history variable: the activation that
  made the most recent assignment to \<open>is_stale\<close> (no statement reads it).
\<close>

record config =
  shared :: UsageFetcher
  threads :: "thread list"
  stale_writer :: "nat option"

text \<open>What can happen next: \<^verbatim>\<open>fetch_async\<close> is called (with what the subprocess of the new
  thread is going to do), or thread \<open>i\<close> executes its next statement.\<close>

datatype event = FetchAsync run_result | Step nat

fun step_event :: "clock \<Rightarrow> config \<Rightarrow> event \<Rightarrow> config" where
  "step_event clk c (FetchAsync r) = c\<lparr>threads := threads c @ [new_thread r]\<rparr>"
| "step_event clk c (Step i) =
     (if i < length (threads c) then
        (case remaining (threads c ! i) of
           [] \<Rightarrow> c
         | s # _ \<Rightarrow>
             (let (t, self) = exec_stmt clk s (threads c ! i) (shared c)
              in \<lparr> shared = self,
                   threads = (threads c)[i := t\<lparr>t_pc := t_pc t + 1\<rparr>],
                   stale_writer = (if assigns_stale s then Some i else stale_writer c) \<rparr>))
      else c)"

definition exec :: "clock \<Rightarrow> event list \<Rightarrow> config \<Rightarrow> config" where
  "exec clk evs c = foldl (step_event clk) c evs"






subsection \<open>Sample inputs\<close>

definition sample_clock :: clock where
  "sample_clock n =
     \<lparr> year = 2025, month = 1, day = 2, hour = 3, minute = 4, second = n mod 60,
       microsecond = 0 \<rparr>"





section \<open>Properties\<close>

subsection \<open>Auxiliary facts\<close>

lemma notify_update_fields [simp]:
  "on_update (notify_update st e s) = on_update s"
  "last_good_data (notify_update st e s) = last_good_data s"
  "last_successful_fetch (notify_update st e s) = last_successful_fetch s"
  "last_error (notify_update st e s) = last_error s"
  "fetch_count (notify_update st e s) = fetch_count s"
  "is_fetching (notify_update st e s) = is_fetching s"
  "is_stale (notify_update st e s) = is_stale s"
  "schedule_on_main_thread (notify_update st e s) = schedule_on_main_thread s"
  "now_calls (notify_update st e s) = now_calls s"
  by (simp_all add: notify_update_def)

lemma notify_update_notified:
  "notified (notify_update st e s) =
     notified s @ (if on_update s then [(delivery_of s, snapshot st e s)] else [])"
  by (simp add: notify_update_def delivery_of_def)

lemmas fetch_defs = do_fetch_def parse_output_def now_def Let_def

lemma has_valid_data_iff: "has_valid_data d = mandatory_ok d"
  by (simp add: has_valid_data_def mandatory_ok_def dict_get_default_def split: option.splits)

lemma do_fetch_success_fields:
  assumes "parse_data out = Inr d" and "mandatory_ok d"
  shows "last_good_data (do_fetch clk (Completed 0 out err) self) = Some d"
    and "last_successful_fetch (do_fetch clk (Completed 0 out err) self) = Some (clk (now_calls self + 1))"
    and "is_stale (do_fetch clk (Completed 0 out err) self) = False"
    and "last_error (do_fetch clk (Completed 0 out err) self) = None"
    and "is_fetching (do_fetch clk (Completed 0 out err) self) = False"
    and "fetch_count (do_fetch clk (Completed 0 out err) self) = fetch_count self + 1"
    and "now_calls (do_fetch clk (Completed 0 out err) self) = now_calls self + 3"
    and "on_update (do_fetch clk (Completed 0 out err) self) = on_update self"
    and "schedule_on_main_thread (do_fetch clk (Completed 0 out err) self) = schedule_on_main_thread self"
  using assms by (simp_all add: fetch_defs has_valid_data_iff)

lemma do_fetch_success_notified:
  assumes "parse_data out = Inr d" and "mandatory_ok d"
  shows "notified (do_fetch clk (Completed 0 out err) self) =
     notified self @
             (if on_update self then
                [(delivery_of self, fetching_update clk self),
                 (delivery_of self,
                  \<lparr> u_data = Some d, u_is_stale = False, u_error = None,
                    u_status = ''OK (fetch #'' @ str_nat (fetch_count self + 1) @ '') @ '' @
                               strftime_HMS (clk (now_calls self + 2)),
                    u_fetch_count = fetch_count self + 1,
                    u_last_successful_fetch = Some (clk (now_calls self + 1)),
                    u_is_fetching = False \<rparr>)]
              else [])"
  using assms by (simp add: fetch_defs has_valid_data_iff notify_update_notified snapshot_def error_or_def delivery_of_def fetching_update_def)

lemma do_fetch_failed_fields:
  assumes "attempt_fails r"
  shows "last_good_data (do_fetch clk r self) = last_good_data self \<and>
         last_successful_fetch (do_fetch clk r self) = last_successful_fetch self \<and>
         is_stale (do_fetch clk r self) = True \<and>
         is_fetching (do_fetch clk r self) = False \<and>
         fetch_count (do_fetch clk r self) = fetch_count self + 1"
proof (cases r)
  case (Completed rc out err)
  show ?thesis
  proof (cases "rc = 0")
    case True
    show ?thesis
    proof (cases "parse_data out")
      case (Inl e)
      with Completed True show ?thesis by (simp add: fetch_defs)
    next
      case (Inr d)
      with Completed True assms show ?thesis by (simp add: fetch_defs has_valid_data_iff)
    qed
  next
    case False
    with Completed show ?thesis by (simp add: fetch_defs)
  qed
next
  case TimeoutExpired
  then show ?thesis by (simp add: fetch_defs)
next
  case (Raised tn msg)
  then show ?thesis by (simp add: fetch_defs)
qed

lemma do_fetch_nonzero_fields:
  assumes "returncode \<noteq> 0"
  shows "last_error (do_fetch clk (Completed returncode out err) self) =
           Some (''Script exit '' @ str_int returncode @ '': '' @ stderr_preview err)"
    and "is_stale (do_fetch clk (Completed returncode out err) self) = True"
    and "is_fetching (do_fetch clk (Completed returncode out err) self) = False"
  using assms by (simp_all add: fetch_defs)

lemma do_fetch_nonzero_notified:
  assumes "returncode \<noteq> 0"
  shows "notified (do_fetch clk (Completed returncode out err) self) =
     notified self @
       (if on_update self then
          [(delivery_of self, fetching_update clk self),
           (delivery_of self,
            \<lparr> u_data = last_good_data self, u_is_stale = True,
              u_error = Some (''Script exit '' @ str_int returncode @ '': '' @ stderr_preview err),
              u_status = ''Error @ '' @ strftime_HMS (clk (now_calls self + 1)),
              u_fetch_count = fetch_count self + 1,
              u_last_successful_fetch = last_successful_fetch self,
              u_is_fetching = False \<rparr>)]
        else [])"
  using assms
  by (simp add: fetch_defs notify_update_notified snapshot_def error_or_def delivery_of_def
        fetching_update_def)

lemma do_fetch_invalid_fields:
  assumes "parse_data out = Inr d" and "\<not> mandatory_ok d"
  shows "last_error (do_fetch clk (Completed 0 out err) self) =
           Some (''Got ?? values (parsed '' @ str_nat (length d) @ '' keys)'')"
    and "is_stale (do_fetch clk (Completed 0 out err) self) = True"
  using assms by (simp_all add: fetch_defs has_valid_data_iff)

lemma parse_line_distinct:
  "parse_line line d = Inr d' \<Longrightarrow> distinct (map fst d) \<Longrightarrow> distinct (map fst d')"
  by (auto simp: parse_line_def dict_set_def distinct_update split: if_splits list.splits)

lemma parse_lines_distinct:
  "parse_lines ls d = Inr d' \<Longrightarrow> distinct (map fst d) \<Longrightarrow> distinct (map fst d')"
proof (induction ls arbitrary: d)
  case Nil
  then show ?case by simp
next
  case (Cons l ls)
  then show ?case
    by (auto split: sum.splits dest: parse_line_distinct)
qed

lemma parse_data_distinct: "parse_data out = Inr d \<Longrightarrow> distinct (map fst d)"
  unfolding parse_data_def by (erule parse_lines_distinct) simp

lemma distinct_keys_card: "distinct (map fst d) \<Longrightarrow> card (dom (map_of d)) = length d"
  by (simp add: dom_map_of_conv_image_fst distinct_card flip: set_map)

lemma parse_scenario_B:
  "parse_data ''SESSION_REMAINING=??\<newline>WEEKLY_REMAINING=50\<newline>'' =
     Inr [(''SESSION_REMAINING'', ''??''), (''WEEKLY_REMAINING'', ''50'')]"
  by (simp add: parse_data_def strip_def isspace_def split_eq1_def parse_line_def
        startswith_hash_def dict_set_def)

lemma parse_empty: "parse_data [] = Inr []"
  by (simp add: parse_data_def strip_def parse_line_def)

lemma parse_scenario_A:
  "parse_data ''SESSION_REMAINING=42\<newline>WEEKLY_REMAINING=88\<newline>'' =
     Inr [(''SESSION_REMAINING'', ''42''), (''WEEKLY_REMAINING'', ''88'')]"
  by (simp add: parse_data_def strip_def isspace_def split_eq1_def parse_line_def
        startswith_hash_def dict_set_def)

lemma parse_three_keys:
  "parse_data ''SESSION_REMAINING=42\<newline>WEEKLY_REMAINING=88\<newline>PLAN_TYPE=max\<newline>'' =
     Inr [(''SESSION_REMAINING'', ''42''), (''WEEKLY_REMAINING'', ''88''), (''PLAN_TYPE'', ''max'')]"
  by (simp add: parse_data_def strip_def isspace_def split_eq1_def parse_line_def
        startswith_hash_def dict_set_def)




subsection \<open>Display projection\<close>

text \<open>
  Claim C9. \<open>get_display_values\<close> applied to a present but empty mapping returns the same
  all-default record as absent input: both percentage fields are \<^verbatim>\<open>"--"\<close>, not the
  per-key default \<^verbatim>\<open>"??"\<close>.
\<close>

theorem get_display_values_empty:
  "get_display_values (Some []) = get_display_values None \<and>
   session_remaining (get_display_values (Some [])) = ''--'' \<and>
   weekly_remaining (get_display_values (Some [])) = ''--''"
  by (simp add: get_display_values_def)

text \<open>
  Claim C5, as stated, promises the per-field default \<^verbatim>\<open>"??"\<close> for every present
  mapping. It fails for the present empty mapping, where the percentage fields are not
  what a lookup with default \<^verbatim>\<open>"??"\<close> gives.
\<close>

theorem get_display_values_present_empty_not_table_default:
  "session_remaining (get_display_values (Some [])) \<noteq>
     dict_get_default [] ''SESSION_REMAINING'' ''??'' \<and>
   weekly_remaining (get_display_values (Some [])) \<noteq>
     dict_get_default [] ''WEEKLY_REMAINING'' ''??''"
  by (simp add: get_display_values_def dict_get_default_def)

text \<open>
  Claim C5, amended. \<open>get_display_values\<close> is a total function: for absent input and for
  a present empty mapping it returns the all-default record (\<^verbatim>\<open>"--"\<close> for both
  percentage fields, absent for the optional string fields, false for the exhaustion
  flag); for a present non-empty mapping it returns, for each of the ten fields, the value
  stored at its fixed key, with \<^verbatim>\<open>"??"\<close> for a missing percentage and absent for a
  missing optional, and \<open>exhausts_before_reset\<close> is true exactly when the raw value is the
  string \<^verbatim>\<open>"true"\<close>.
\<close>

theorem get_display_values_table:
  "get_display_values None =
     \<lparr> session_remaining = ''--'', weekly_remaining = ''--'',
       time_remaining_str = None, confidence = None, session_resets = None,
       weekly_resets = None, exhausts_before_reset = False,
       account_email = None, plan_type = None, extra_pct = None \<rparr> \<and>
   get_display_values (Some []) = get_display_values None \<and>
   (d \<noteq> [] \<longrightarrow>
      get_display_values (Some d) =
        \<lparr> session_remaining =
            (case map_of d ''SESSION_REMAINING'' of None \<Rightarrow> ''??'' | Some v \<Rightarrow> v),
          weekly_remaining =
            (case map_of d ''WEEKLY_REMAINING'' of None \<Rightarrow> ''??'' | Some v \<Rightarrow> v),
          time_remaining_str = map_of d ''TIME_REMAINING_STR'',
          confidence = map_of d ''CONFIDENCE'',
          session_resets = map_of d ''SESSION_RESETS'',
          weekly_resets = map_of d ''WEEKLY_RESETS'',
          exhausts_before_reset = (map_of d ''EXHAUSTS_BEFORE_RESET'' = Some ''true''),
          account_email = map_of d ''ACCOUNT_EMAIL'',
          plan_type = map_of d ''PLAN_TYPE'',
          extra_pct = map_of d ''EXTRA_USED'' \<rparr>)"
  by (simp add: get_display_values_def dict_get_default_def dict_get_def)

theorem get_display_values_table_witness:
  "[(''SESSION_REMAINING'', ''42''), (''EXHAUSTS_BEFORE_RESET'', ''true'')] \<noteq> [] \<and>
   get_display_values
     (Some [(''SESSION_REMAINING'', ''42''), (''EXHAUSTS_BEFORE_RESET'', ''true'')]) =
     \<lparr> session_remaining = ''42'', weekly_remaining = ''??'',
       time_remaining_str = None, confidence = None, session_resets = None,
       weekly_resets = None, exhausts_before_reset = True,
       account_email = None, plan_type = None, extra_pct = None \<rparr>"
  using get_display_values_table
          [of "[(''SESSION_REMAINING'', ''42''), (''EXHAUSTS_BEFORE_RESET'', ''true'')]"]
  by simp

subsection \<open>Fetch attempts\<close>

text \<open>
  Claim C1. For every fetch attempt whose subprocess exits with code 0 and whose parsed
  output contains both \<^verbatim>\<open>SESSION_REMAINING\<close> and \<^verbatim>\<open>WEEKLY_REMAINING\<close> with values
  different from \<^verbatim>\<open>"??"\<close>, the fetcher sets \<open>last_good_data\<close> to the full parsed mapping,
  \<open>last_successful_fetch\<close> to the current time (the clock reading taken at that point, the
  second of the attempt), \<open>is_stale\<close> to false and \<open>last_error\<close> to none, and notifies the
  listener, when one is registered, with status \<^verbatim>\<open>"OK (fetch #<n>) @ <time>"\<close>.
\<close>

theorem successful_fetch_updates_state:
  assumes "parse_data stdout = Inr data"
    and "map_of data ''SESSION_REMAINING'' = Some s" and "s \<noteq> ''??''"
    and "map_of data ''WEEKLY_REMAINING'' = Some w" and "w \<noteq> ''??''"
  shows "last_good_data (do_fetch clk (Completed 0 stdout stderr) self) = Some data \<and>
         last_successful_fetch (do_fetch clk (Completed 0 stdout stderr) self) =
           Some (clk (now_calls self + 1)) \<and>
         is_stale (do_fetch clk (Completed 0 stdout stderr) self) = False \<and>
         last_error (do_fetch clk (Completed 0 stdout stderr) self) = None \<and>
         notified (do_fetch clk (Completed 0 stdout stderr) self) =
           notified self @
             (if on_update self then
                [(delivery_of self, fetching_update clk self),
                 (delivery_of self,
                  \<lparr> u_data = Some data, u_is_stale = False, u_error = None,
                    u_status = ''OK (fetch #'' @ str_nat (fetch_count self + 1) @ '') @ '' @
                               strftime_HMS (clk (now_calls self + 2)),
                    u_fetch_count = fetch_count self + 1,
                    u_last_successful_fetch = Some (clk (now_calls self + 1)),
                    u_is_fetching = False \<rparr>)]
              else [])"
proof -
  from assms(2-5) have ok: "mandatory_ok data"
    by (simp add: mandatory_ok_def)
  show ?thesis
    using do_fetch_success_fields [OF assms(1) ok] do_fetch_success_notified [OF assms(1) ok]
    by simp
qed

theorem successful_fetch_updates_state_witness:
  "parse_data ''SESSION_REMAINING=42\<newline>WEEKLY_REMAINING=88\<newline>PLAN_TYPE=max\<newline>'' =
     Inr [(''SESSION_REMAINING'', ''42''), (''WEEKLY_REMAINING'', ''88''), (''PLAN_TYPE'', ''max'')] \<and>
   last_good_data
     (do_fetch sample_clock
        (Completed 0 ''SESSION_REMAINING=42\<newline>WEEKLY_REMAINING=88\<newline>PLAN_TYPE=max\<newline>'' []) (init True)) =
     Some [(''SESSION_REMAINING'', ''42''), (''WEEKLY_REMAINING'', ''88''), (''PLAN_TYPE'', ''max'')] \<and>
   last_successful_fetch
     (do_fetch sample_clock
        (Completed 0 ''SESSION_REMAINING=42\<newline>WEEKLY_REMAINING=88\<newline>PLAN_TYPE=max\<newline>'' []) (init True)) =
     Some (sample_clock 1) \<and>
   \<not> is_stale
     (do_fetch sample_clock
        (Completed 0 ''SESSION_REMAINING=42\<newline>WEEKLY_REMAINING=88\<newline>PLAN_TYPE=max\<newline>'' []) (init True)) \<and>
   last_error
     (do_fetch sample_clock
        (Completed 0 ''SESSION_REMAINING=42\<newline>WEEKLY_REMAINING=88\<newline>PLAN_TYPE=max\<newline>'' []) (init True)) = None \<and>
   map (u_status \<circ> snd)
     (notified (do_fetch sample_clock
        (Completed 0 ''SESSION_REMAINING=42\<newline>WEEKLY_REMAINING=88\<newline>PLAN_TYPE=max\<newline>'' []) (init True))) =
     [''Fetching #1 (started 03:04:00)...'', ''OK (fetch #1) @ 03:04:02'']"
proof -
  have p: "parse_data ''SESSION_REMAINING=42\<newline>WEEKLY_REMAINING=88\<newline>PLAN_TYPE=max\<newline>'' =
     Inr [(''SESSION_REMAINING'', ''42''), (''WEEKLY_REMAINING'', ''88''), (''PLAN_TYPE'', ''max'')]"
    by (rule parse_three_keys)
  show ?thesis
    using p successful_fetch_updates_state [OF p, of "''42''" "''88''" sample_clock "[]" "init True"]
    by (simp add: init_def fetching_update_def str_nat.simps digit_char_def strftime_HMS_def
          pad2_def sample_clock_def)
qed

text \<open>
  Claim C7. For every fetch attempt whose subprocess exits 0 but whose parsed output is
  missing \<^verbatim>\<open>SESSION_REMAINING\<close> or \<^verbatim>\<open>WEEKLY_REMAINING\<close>, or has the value \<^verbatim>\<open>"??"\<close> for
  either, the fetcher sets \<open>is_stale\<close> to true and \<open>last_error\<close> to
  \<^verbatim>\<open>"Got ?? values (parsed <k> keys)"\<close>, \<open>k\<close> being the number of parsed keys; the input of
  scenario B reports 2 parsed keys and empty stdout reports 0.
\<close>

theorem invalid_data_marks_stale:
  "(parse_data stdout = Inr data \<longrightarrow>
      (map_of data ''SESSION_REMAINING'' \<in> {None, Some ''??''} \<or>
       map_of data ''WEEKLY_REMAINING'' \<in> {None, Some ''??''}) \<longrightarrow>
      is_stale (do_fetch clk (Completed 0 stdout stderr) self) = True \<and>
      last_error (do_fetch clk (Completed 0 stdout stderr) self) =
        Some (''Got ?? values (parsed '' @ str_nat (card (dom (map_of data))) @ '' keys)'')) \<and>
   last_error
     (do_fetch clk (Completed 0 ''SESSION_REMAINING=??\<newline>WEEKLY_REMAINING=50\<newline>'' stderr) self) =
     Some ''Got ?? values (parsed 2 keys)'' \<and>
   last_error (do_fetch clk (Completed 0 [] stderr) self) = Some ''Got ?? values (parsed 0 keys)''"
proof (intro conjI impI)
  assume p: "parse_data stdout = Inr data"
    and bad: "map_of data ''SESSION_REMAINING'' \<in> {None, Some ''??''} \<or>
              map_of data ''WEEKLY_REMAINING'' \<in> {None, Some ''??''}"
  from bad have nok: "\<not> mandatory_ok data"
    by (auto simp: mandatory_ok_def)
  show "is_stale (do_fetch clk (Completed 0 stdout stderr) self) = True"
    by (rule do_fetch_invalid_fields [OF p nok])
  show "last_error (do_fetch clk (Completed 0 stdout stderr) self) =
        Some (''Got ?? values (parsed '' @ str_nat (card (dom (map_of data))) @ '' keys)'')"
    by (simp add: do_fetch_invalid_fields [OF p nok] distinct_keys_card [OF parse_data_distinct [OF p]])
next
  have nok: "\<not> mandatory_ok [(''SESSION_REMAINING'', ''??''), (''WEEKLY_REMAINING'', ''50'')]"
    by (simp add: mandatory_ok_def)
  show "last_error
     (do_fetch clk (Completed 0 ''SESSION_REMAINING=??\<newline>WEEKLY_REMAINING=50\<newline>'' stderr) self) =
     Some ''Got ?? values (parsed 2 keys)''"
    by (simp add: do_fetch_invalid_fields [OF parse_scenario_B nok] str_nat.simps digit_char_def)
next
  have nok: "\<not> mandatory_ok []"
    by (simp add: mandatory_ok_def)
  show "last_error (do_fetch clk (Completed 0 [] stderr) self) = Some ''Got ?? values (parsed 0 keys)''"
    by (simp add: do_fetch_invalid_fields [OF parse_empty nok] str_nat.simps digit_char_def)
qed

theorem invalid_data_marks_stale_witness:
  "parse_data ''WEEKLY_REMAINING=50'' = Inr [(''WEEKLY_REMAINING'', ''50'')] \<and>
   map_of [(''WEEKLY_REMAINING'', ''50'')] ''SESSION_REMAINING'' \<in> {None, Some ''??''} \<and>
   is_stale (do_fetch sample_clock (Completed 0 ''WEEKLY_REMAINING=50'' []) (init True)) \<and>
   last_error (do_fetch sample_clock (Completed 0 ''WEEKLY_REMAINING=50'' []) (init True)) =
     Some ''Got ?? values (parsed 1 keys)''"
proof -
  have p: "parse_data ''WEEKLY_REMAINING=50'' = Inr [(''WEEKLY_REMAINING'', ''50'')]"
    by (simp add: parse_data_def strip_def isspace_def split_eq1_def parse_line_def
        startswith_hash_def dict_set_def)
  show ?thesis
    using p invalid_data_marks_stale [of "''WEEKLY_REMAINING=50''" "[(''WEEKLY_REMAINING'', ''50'')]" sample_clock "[]" "init True"]
    by (simp add: str_nat.simps digit_char_def)
qed

text \<open>
  Claim C6, as stated, puts the first 100 characters of stderr into the message
  unchanged. The code does not: an empty stderr gives \<^verbatim>\<open>"no stderr"\<close>, and a newline
  is replaced by a space.
\<close>

theorem nonzero_exit_error_not_raw_stderr:
  "last_error (do_fetch sample_clock (Completed 1 [] []) (init True)) =
     Some ''Script exit 1: no stderr'' \<and>
   ''Script exit 1: no stderr'' \<noteq> ''Script exit '' @ str_int 1 @ '': '' @ take 100 [] \<and>
   last_error (do_fetch sample_clock (Completed 1 [] ''a\<newline>b'') (init True)) =
     Some ''Script exit 1: a b'' \<and>
   ''Script exit 1: a b'' \<noteq> ''Script exit '' @ str_int 1 @ '': '' @ take 100 ''a\<newline>b''"
  by (simp add: do_fetch_nonzero_fields stderr_preview_def replace_nl_def str_int_def
        str_nat.simps digit_char_def)

text \<open>
  Claim C6, amended. For every fetch attempt whose subprocess exits with a non-zero code,
  the fetcher sets \<open>is_fetching\<close> to false, \<open>is_stale\<close> to true and \<open>last_error\<close> to
  \<^verbatim>\<open>"Script exit <code>: <preview>"\<close>, where the preview is \<^verbatim>\<open>"no stderr"\<close> for an empty
  stderr and otherwise the first 100 characters of stderr with every newline replaced by a
  space, and notifies the listener, when one is registered, with status
  \<^verbatim>\<open>"Error @ <time>"\<close>; in particular, exit code 1 with stderr \<^verbatim>\<open>"disk full"\<close> yields
  \<^verbatim>\<open>"Script exit 1: disk full"\<close> and \<open>is_stale\<close> true.
\<close>

theorem nonzero_exit_marks_stale:
  "(returncode \<noteq> 0 \<longrightarrow>
      is_fetching (do_fetch clk (Completed returncode stdout stderr) self) = False \<and>
      is_stale (do_fetch clk (Completed returncode stdout stderr) self) = True \<and>
      last_error (do_fetch clk (Completed returncode stdout stderr) self) =
        Some (''Script exit '' @ str_int returncode @ '': '' @
              (if stderr = [] then ''no stderr''
               else map (\<lambda>c. if c = CHR 0x0A then CHR '' '' else c) (take 100 stderr))) \<and>
      notified (do_fetch clk (Completed returncode stdout stderr) self) =
        notified self @
          (if on_update self then
             [(delivery_of self, fetching_update clk self),
              (delivery_of self,
               \<lparr> u_data = last_good_data self, u_is_stale = True,
                 u_error =
                   Some (''Script exit '' @ str_int returncode @ '': '' @
                         (if stderr = [] then ''no stderr''
                          else map (\<lambda>c. if c = CHR 0x0A then CHR '' '' else c) (take 100 stderr))),
                 u_status = ''Error @ '' @ strftime_HMS (clk (now_calls self + 1)),
                 u_fetch_count = fetch_count self + 1,
                 u_last_successful_fetch = last_successful_fetch self,
                 u_is_fetching = False \<rparr>)]
           else [])) \<and>
   last_error (do_fetch clk (Completed 1 stdout ''disk full'') self) =
     Some ''Script exit 1: disk full'' \<and>
   is_stale (do_fetch clk (Completed 1 stdout ''disk full'') self) = True"
  by (simp add: do_fetch_nonzero_fields do_fetch_nonzero_notified stderr_preview_def
        replace_nl_def str_int_def str_nat.simps digit_char_def)

theorem nonzero_exit_marks_stale_witness:
  "(2::int) \<noteq> 0 \<and>
   is_fetching (do_fetch sample_clock (Completed 2 [] ''No such file\<newline>'') (init True)) = False \<and>
   is_stale (do_fetch sample_clock (Completed 2 [] ''No such file\<newline>'') (init True)) = True \<and>
   last_error (do_fetch sample_clock (Completed 2 [] ''No such file\<newline>'') (init True)) =
     Some ''Script exit 2: No such file '' \<and>
   map (u_status \<circ> snd)
     (notified (do_fetch sample_clock (Completed 2 [] ''No such file\<newline>'') (init True))) =
     [''Fetching #1 (started 03:04:00)...'', ''Error @ 03:04:01'']"
  using nonzero_exit_marks_stale [of 2 sample_clock "[]" "''No such file\<newline>''" "init True"]
  by (simp add: init_def fetching_update_def str_int_def str_nat.simps digit_char_def
        strftime_HMS_def pad2_def sample_clock_def)

text \<open>
  Claim C10. In the error message for a non-zero subprocess exit, newline characters
  inside the first 100 characters of stderr are replaced by spaces, and when stderr is
  empty the message is \<^verbatim>\<open>"Script exit <code>: no stderr"\<close>.
\<close>

theorem nonzero_exit_error_preview:
  "returncode \<noteq> 0 \<Longrightarrow>
   (stderr = [] \<longrightarrow>
      last_error (do_fetch clk (Completed returncode stdout stderr) self) =
        Some (''Script exit '' @ str_int returncode @ '': no stderr'')) \<and>
   (stderr \<noteq> [] \<longrightarrow>
      (\<exists>p. last_error (do_fetch clk (Completed returncode stdout stderr) self) =
             Some (''Script exit '' @ str_int returncode @ '': '' @ p) \<and>
           length p = min 100 (length stderr) \<and>
           (\<forall>i < length p. p ! i = (if stderr ! i = CHR 0x0A then CHR '' '' else stderr ! i))))"
  by (auto simp add: do_fetch_nonzero_fields stderr_preview_def replace_nl_def)

theorem nonzero_exit_error_preview_witness:
  "(1::int) \<noteq> 0 \<and>
   last_error (do_fetch sample_clock (Completed 1 [] []) (init True)) = Some ''Script exit 1: no stderr'' \<and>
   last_error (do_fetch sample_clock (Completed 1 [] ''a\<newline>b'') (init True)) = Some ''Script exit 1: a b''"
  using nonzero_exit_error_preview [of 1 "[]" sample_clock "[]" "init True"]
    nonzero_exit_error_preview [of 1 "''a\<newline>b''" sample_clock "[]" "init True"]
  by (simp add: str_int_def str_nat.simps digit_char_def do_fetch_nonzero_fields stderr_preview_def replace_nl_def)

text \<open>
  Claim C2. For every fetch attempt that fails (non-zero exit, timeout, launch failure) or
  whose output is invalid or unparseable, \<open>last_good_data\<close> and \<open>last_successful_fetch\<close>
  are left as they were before the attempt; in particular, after a failed or invalid fetch
  that follows a successful fetch, \<open>last_good_data\<close> still equals the mapping of the
  successful fetch and \<open>is_stale\<close> is true.
\<close>

theorem failed_fetch_keeps_last_good_data:
  assumes "attempt_fails r"
  shows "last_good_data (do_fetch clk r self) = last_good_data self \<and>
         last_successful_fetch (do_fetch clk r self) = last_successful_fetch self \<and>
         is_stale (do_fetch clk r self) = True \<and>
         (\<forall>stdout stderr data.
            parse_data stdout = Inr data \<and> mandatory_ok data \<longrightarrow>
            last_good_data (do_fetch clk r (do_fetch clk (Completed 0 stdout stderr) self)) = Some data \<and>
            is_stale (do_fetch clk r (do_fetch clk (Completed 0 stdout stderr) self)) = True)"
  using do_fetch_failed_fields [OF assms] by (simp add: do_fetch_success_fields)

theorem failed_fetch_keeps_last_good_data_witness:
  "attempt_fails TimeoutExpired \<and>
   attempt_fails (Raised ''FileNotFoundError'' ''bash'') \<and>
   attempt_fails (Completed 1 [] ''disk full'') \<and>
   attempt_fails (Completed 0 ''SESSION_REMAINING=??\<newline>WEEKLY_REMAINING=50\<newline>'' []) \<and>
   parse_data ''SESSION_REMAINING=42\<newline>WEEKLY_REMAINING=88\<newline>'' =
     Inr [(''SESSION_REMAINING'', ''42''), (''WEEKLY_REMAINING'', ''88'')] \<and>
   mandatory_ok [(''SESSION_REMAINING'', ''42''), (''WEEKLY_REMAINING'', ''88'')] \<and>
   last_good_data (do_fetch sample_clock TimeoutExpired (init True)) = None \<and>
   last_successful_fetch (do_fetch sample_clock TimeoutExpired (init True)) = None \<and>
   last_good_data
     (do_fetch sample_clock TimeoutExpired
        (do_fetch sample_clock
           (Completed 0 ''SESSION_REMAINING=42\<newline>WEEKLY_REMAINING=88\<newline>'' []) (init True))) =
     Some [(''SESSION_REMAINING'', ''42''), (''WEEKLY_REMAINING'', ''88'')] \<and>
   is_stale
     (do_fetch sample_clock TimeoutExpired
        (do_fetch sample_clock
           (Completed 0 ''SESSION_REMAINING=42\<newline>WEEKLY_REMAINING=88\<newline>'' []) (init True)))"
proof -
  have f: "attempt_fails TimeoutExpired" by simp
  have ok: "mandatory_ok [(''SESSION_REMAINING'', ''42''), (''WEEKLY_REMAINING'', ''88'')]"
    by (simp add: mandatory_ok_def)
  have nok: "\<not> mandatory_ok [(''SESSION_REMAINING'', ''??''), (''WEEKLY_REMAINING'', ''50'')]"
    by (simp add: mandatory_ok_def)
  show ?thesis
    using failed_fetch_keeps_last_good_data [OF f, of sample_clock "init True"] parse_scenario_A parse_scenario_B ok nok
    by (simp add: init_def)
qed

subsection \<open>Attempts in flight and overlapping attempts\<close>















lemma exec_Nil [simp]: "exec clk [] c = c"
  by (simp add: exec_def)






















subsection \<open>The parser\<close>

lemma split_eq1_has_eq:
  "CHR ''='' \<in> set line \<Longrightarrow>
   split_eq1 line = [takeWhile (\<lambda>c. c \<noteq> CHR ''='') line, tl (dropWhile (\<lambda>c. c \<noteq> CHR ''='') line)]"
  by (simp add: split_eq1_def)

lemma parse_line_spec_entry:
  "parse_line line d =
     Inr (case spec_entry line of None \<Rightarrow> d | Some (k, v) \<Rightarrow> AList.update k v d)"
proof (cases "CHR ''='' \<in> set line \<and> \<not> startswith_hash line")
  case True
  then have "line \<noteq> []" by auto
  with True show ?thesis
    by (simp add: parse_line_def spec_entry_def split_eq1_has_eq dict_set_def drop_Suc)
next
  case False
  then show ?thesis
    by (auto simp: parse_line_def spec_entry_def)
qed

lemma map_upd_add: "m(k \<mapsto> v) ++ n = m ++ ([k \<mapsto> v] ++ n)"
  by (rule ext) (simp add: map_add_def split: option.splits)

lemma parse_lines_spec:
  "\<exists>d'. parse_lines ls d = Inr d' \<and>
        map_of d' = map_of d ++ map_of (rev (List.map_filter spec_entry ls))"
proof (induction ls arbitrary: d)
  case Nil
  show ?case by (simp add: map_filter_simps)
next
  case (Cons l ls)
  show ?case
  proof (cases "spec_entry l")
    case None
    with Cons [of d] show ?thesis
      by (simp add: parse_line_spec_entry map_filter_simps)
  next
    case (Some kv)
    obtain k v where kv: "kv = (k, v)" by (cases kv)
    from Cons [of "AList.update k v d"] obtain d'
      where d': "parse_lines ls (AList.update k v d) = Inr d'"
        "map_of d' = map_of (AList.update k v d) ++ map_of (rev (List.map_filter spec_entry ls))"
      by blast
    have "map_of (AList.update k v d) ++ map_of (rev (List.map_filter spec_entry ls)) =
          (map_of d)(k \<mapsto> v) ++ map_of (rev (List.map_filter spec_entry ls))"
      by (simp add: update_conv')
    also have "\<dots> = map_of d ++ ([k \<mapsto> v] ++ map_of (rev (List.map_filter spec_entry ls)))"
      by (rule map_upd_add)
    also have "[k \<mapsto> v] ++ map_of (rev (List.map_filter spec_entry ls)) =
               map_of (rev (List.map_filter spec_entry (l # ls)))"
      by (simp add: Some kv map_filter_simps)
    finally have "map_of (AList.update k v d) ++ map_of (rev (List.map_filter spec_entry ls)) =
          map_of d ++ map_of (rev (List.map_filter spec_entry (l # ls)))" .
    with d' Some kv show ?thesis
      by (simp add: parse_line_spec_entry)
  qed
qed

text \<open>
  Claim C4, as stated, has the parser split its input on newlines and skip a line only when
  it is empty, starts with \<^verbatim>\<open>#\<close> or has no \<^verbatim>\<open>=\<close>. The code strips the whole input
  first: a first line with whitespace before \<^verbatim>\<open>#\<close> is skipped by the code and is an
  entry for the parser of the claim.
\<close>

theorem parse_data_skips_indented_comment:
  "parse_data '' #A=1'' = Inr [] \<and> spec_parse '' #A=1'' ''#A'' = Some ''1''"
  by (simp add: parse_data_def strip_def isspace_def parse_line_def startswith_hash_def
        spec_parse_def spec_entry_def map_filter_simps)

text \<open>
  Claim C4, amended. The parser strips the whitespace at both ends of the whole input,
  splits the rest on newlines and, for every line, skips it if it is empty, starts with
  \<^verbatim>\<open>#\<close> or contains no \<^verbatim>\<open>=\<close>; every other line is split on the first \<^verbatim>\<open>=\<close> only,
  key and value are whitespace-trimmed, and when the same key occurs on several lines the
  last value wins; empty input yields the empty mapping, and no input is an error.
\<close>

theorem parse_data_is_spec_parse_of_stripped:
  "(\<exists>d. parse_data input = Inr d \<and> distinct (map fst d) \<and> map_of d = spec_parse (strip input)) \<and>
   parse_data [] = Inr []"
proof
  from parse_lines_spec [of "split_nl (strip input)" "[]"] obtain d
    where d: "parse_data input = Inr d" "map_of d = spec_parse (strip input)"
    by (auto simp: parse_data_def spec_parse_def)
  with parse_data_distinct [OF d(1)]
  show "\<exists>d. parse_data input = Inr d \<and> distinct (map fst d) \<and> map_of d = spec_parse (strip input)"
    by blast
  show "parse_data [] = Inr []" by (rule parse_empty)
qed

theorem parse_data_is_spec_parse_of_stripped_witness:
  "parse_data '' A = 1=2\<newline>#B=0\<newline>\<newline>junk\<newline>A=3\<newline>C=x=y\<newline>'' = Inr [(''A'', ''3''), (''C'', ''x=y'')] \<and>
   spec_parse (strip '' A = 1=2\<newline>#B=0\<newline>\<newline>junk\<newline>A=3\<newline>C=x=y\<newline>'') =
     map_of [(''A'', ''3''), (''C'', ''x=y'')]"
proof -
  have p: "parse_data '' A = 1=2\<newline>#B=0\<newline>\<newline>junk\<newline>A=3\<newline>C=x=y\<newline>'' =
           Inr [(''A'', ''3''), (''C'', ''x=y'')]"
    by (simp add: parse_data_def strip_def isspace_def split_eq1_def parse_line_def
        startswith_hash_def dict_set_def)
  from parse_data_is_spec_parse_of_stripped [of "'' A = 1=2\<newline>#B=0\<newline>\<newline>junk\<newline>A=3\<newline>C=x=y\<newline>''"]
  obtain d where "parse_data '' A = 1=2\<newline>#B=0\<newline>\<newline>junk\<newline>A=3\<newline>C=x=y\<newline>'' = Inr d"
    and "map_of d = spec_parse (strip '' A = 1=2\<newline>#B=0\<newline>\<newline>junk\<newline>A=3\<newline>C=x=y\<newline>'')"
    by blast
  with p show ?thesis by simp
qed

subsection \<open>Round trip\<close>

lemma isspace_nl: "isspace (CHR 0x0A)"
  by (simp add: isspace_def)

lemma not_isspace_eq: "\<not> isspace CHR ''=''"
  by (simp add: isspace_def)

lemma strip_fixed_ends:
  assumes "strip s = s" and "s \<noteq> []"
  shows "\<not> isspace (hd s) \<and> \<not> isspace (last s)"
proof -
  have len1: "length (strip s) \<le> length (dropWhile isspace s)"
    unfolding strip_def by (simp add: length_dropWhile_le order_trans [OF length_dropWhile_le])
  have hd_ok: "\<not> isspace (hd s)"
  proof
    assume sp: "isspace (hd s)"
    from assms(2) obtain c cs where s: "s = c # cs" by (cases s) auto
    with sp have "length (dropWhile isspace s) \<le> length cs"
      by (simp add: length_dropWhile_le)
    with len1 s have "length (strip s) < length s" by simp
    with assms(1) show False by simp
  qed
  then have d: "dropWhile isspace s = s"
    using assms(2) by (cases s) auto
  have "\<not> isspace (last s)"
  proof
    assume sp: "isspace (last s)"
    from assms(2) have r: "rev s = last s # rev (butlast s)"
      by (metis append_butlast_last_id rev.simps(2) rev_append rev_rev_ident append_Nil rev_singleton_conv append_Cons)
    have "length (dropWhile isspace (rev s)) \<le> length (rev (butlast s))"
      by (subst r) (simp add: sp length_dropWhile_le del: length_rev length_butlast)
    then have "length (dropWhile isspace (rev s)) \<le> length s - 1"
      by simp
    moreover have "0 < length s"
      using assms(2) by simp
    ultimately have "length (dropWhile isspace (rev s)) < length s"
      by arith
    then have "length (strip s) < length s"
      by (simp add: strip_def d)
    with assms(1) show False by simp
  qed
  with hd_ok show ?thesis by simp
qed

lemma strip_snoc_nl:
  assumes "x \<noteq> []" and "\<not> isspace (hd x)" and "\<not> isspace (last x)"
  shows "strip (x @ [CHR 0x0A]) = x"
proof -
  from assms(1,2) have a: "dropWhile isspace (x @ [CHR 0x0A]) = x @ [CHR 0x0A]"
    by (cases x) auto
  from assms(1) have r: "rev x = last x # rev (butlast x)"
    by (metis append_butlast_last_id rev.simps(2) rev_append rev_rev_ident append_Nil rev_singleton_conv append_Cons)
  have "dropWhile isspace (rev x) = rev x"
    by (subst r, subst r) (simp add: assms(3))
  then show ?thesis
    by (simp add: strip_def a isspace_nl)
qed

lemma split_nl_line:
  "CHR 0x0A \<notin> set l \<Longrightarrow> split_nl l = [l]"
  by (induction l) auto

lemma split_nl_append:
  "CHR 0x0A \<notin> set l \<Longrightarrow> split_nl (l @ CHR 0x0A # rest) = l # split_nl rest"
  by (induction l) auto

lemma update_fresh: "k \<notin> fst ` set d \<Longrightarrow> AList.update k v d = d @ [(k, v)]"
  by (induction d) auto

lemma parse_line_entry:
  assumes "CHR ''='' \<notin> set k" and "\<not> startswith_hash k" and "strip k = k" and "strip v = v"
  shows "parse_line (k @ CHR ''='' # v) d = Inr (AList.update k v d)"
proof -
  have tw: "takeWhile (\<lambda>c. c \<noteq> CHR ''='') (k @ CHR ''='' # v) = k"
    using assms(1) by (induction k) auto
  have dw: "dropWhile (\<lambda>c. c \<noteq> CHR ''='') (k @ CHR ''='' # v) = CHR ''='' # v"
    using assms(1) by (induction k) auto
  have nh: "\<not> startswith_hash (k @ CHR ''='' # v)"
    using assms(2) by (cases k) (simp_all add: startswith_hash_def)
  show ?thesis
    by (simp add: parse_line_def split_eq1_def tw dw nh dict_set_def assms(3,4))
qed

lemma parse_lines_entries:
  assumes "\<forall>kv \<in> set m. roundtrip_entry kv" and "distinct (map fst (d @ m))"
  shows "parse_lines (map (\<lambda>(k, v). k @ ''='' @ v) m) d = Inr (d @ m)"
  using assms
proof (induction m arbitrary: d)
  case Nil
  then show ?case by simp
next
  case (Cons kv m)
  obtain k v where kv: "kv = (k, v)" by (cases kv)
  from Cons.prems(1) kv have ok: "CHR ''='' \<notin> set k" "\<not> startswith_hash k" "strip k = k" "strip v = v"
    by (simp_all add: roundtrip_entry_def key_plain_def)
  from Cons.prems(2) kv have fresh: "k \<notin> fst ` set d"
    by auto
  from Cons.prems have "parse_lines (map (\<lambda>(k, v). k @ ''='' @ v) m) (d @ [(k, v)]) = Inr ((d @ [(k, v)]) @ m)"
    by (intro Cons.IH) (auto simp: kv)
  then show ?case
    by (simp add: kv parse_line_entry [OF ok] update_fresh [OF fresh] del: append_assoc)
qed

lemma entry_line_ends:
  assumes "roundtrip_entry (k, v)"
  shows "\<not> isspace (hd (k @ CHR ''='' # v))" and "\<not> isspace (last (k @ CHR ''='' # v))"
    and "CHR 0x0A \<notin> set (k @ CHR ''='' # v)"
proof -
  from assms have k: "strip k = k" and v: "strip v = v"
    and nl: "CHR 0x0A \<notin> set k" "CHR 0x0A \<notin> set v"
    by (simp_all add: roundtrip_entry_def key_plain_def)
  show "\<not> isspace (hd (k @ CHR ''='' # v))"
    using strip_fixed_ends [OF k] by (cases k) (simp_all add: not_isspace_eq)
  show "\<not> isspace (last (k @ CHR ''='' # v))"
    using strip_fixed_ends [OF v] by (cases "v = []") (simp_all add: not_isspace_eq)
  show "CHR 0x0A \<notin> set (k @ CHR ''='' # v)"
    using nl by simp
qed

lemma split_nl_joined:
  "\<forall>l \<in> set ls. CHR 0x0A \<notin> set l \<Longrightarrow> CHR 0x0A \<notin> set l \<Longrightarrow>
   split_nl (concat (map (\<lambda>l. l @ [CHR 0x0A]) ls) @ l) = ls @ [l]"
  by (induction ls) (simp_all add: split_nl_line split_nl_append)

lemma spec_serialize_lines:
  "spec_serialize m = concat (map (\<lambda>l. l @ [CHR 0x0A]) (map (\<lambda>(k, v). k @ CHR ''='' # v) m))"
  by (simp add: spec_serialize_def comp_def split_def)

lemma split_strip_serialize:
  assumes "\<forall>kv \<in> set m. roundtrip_entry kv" and "m \<noteq> []"
  shows "split_nl (strip (spec_serialize m)) = map (\<lambda>(k, v). k @ CHR ''='' # v) m"
proof -
  define line :: "string \<times> string \<Rightarrow> string" where "line = (\<lambda>(k, v). k @ CHR ''='' # v)"
  have ends: "\<not> isspace (hd (line kv)) \<and> \<not> isspace (last (line kv)) \<and>
              CHR 0x0A \<notin> set (line kv) \<and> line kv \<noteq> []" if "kv \<in> set m" for kv
  proof -
    obtain k v where kv: "kv = (k, v)" by (cases kv)
    with that assms(1) have "roundtrip_entry (k, v)" by auto
    from entry_line_ends [OF this] show ?thesis by (simp add: kv line_def)
  qed
  from assms(2) obtain m' kv where m: "m = m' @ [kv]"
    by (metis append_butlast_last_id)
  define X where "X = concat (map (\<lambda>l. l @ [CHR 0x0A]) (map line m'))"
  have ser: "spec_serialize m = (X @ line kv) @ [CHR 0x0A]"
    by (simp add: spec_serialize_lines m X_def line_def)
  have ne: "X @ line kv \<noteq> []"
    using ends [of kv] by (simp add: m)
  have hd_ok: "\<not> isspace (hd (X @ line kv))"
  proof (cases m')
    case Nil
    then show ?thesis using ends [of kv] by (simp add: X_def m)
  next
    case (Cons kv1 rest)
    then have "hd (X @ line kv) = hd (line kv1)"
      using ends [of kv1] by (simp add: X_def m)
    then show ?thesis using ends [of kv1] by (simp add: m Cons)
  qed
  have last_ok: "\<not> isspace (last (X @ line kv))"
    using ends [of kv] by (simp add: m)
  have "strip (spec_serialize m) = X @ line kv"
    unfolding ser by (rule strip_snoc_nl [OF ne hd_ok last_ok])
  moreover have "split_nl (X @ line kv) = map line m' @ [line kv]"
    unfolding X_def using ends by (intro split_nl_joined) (auto simp: m)
  ultimately show ?thesis
    by (simp add: m line_def)
qed

text \<open>
  Claim C8, as stated, restricts only the keys (no \<^verbatim>\<open>=\<close>, no newline). The round trip
  loses whitespace at the ends of a value or of a key, drops an entry whose key starts with
  \<^verbatim>\<open>#\<close>, and cuts a value at a newline.
\<close>

theorem roundtrip_loses_untrimmed_entries:
  "key_plain ''A'' \<and> parse_data (spec_serialize [(''A'', '' 1'')]) = Inr [(''A'', ''1'')] \<and>
   key_plain '' A'' \<and> parse_data (spec_serialize [('' A'', ''1'')]) = Inr [(''A'', ''1'')] \<and>
   key_plain ''#A'' \<and> parse_data (spec_serialize [(''#A'', ''1'')]) = Inr [] \<and>
   parse_data (spec_serialize [(''A'', ''1\<newline>2'')]) = Inr [(''A'', ''1'')]"
  by (simp add: key_plain_def spec_serialize_def parse_data_def strip_def isspace_def
        split_eq1_def parse_line_def startswith_hash_def dict_set_def)

text \<open>
  Claim C8, amended. For every mapping whose keys contain no \<^verbatim>\<open>=\<close> and no newline, do
  not start with \<^verbatim>\<open>#\<close> and have no whitespace at either end, and whose values contain no
  newline and have no whitespace at either end, serializing it as \<^verbatim>\<open>KEY=value\<close> lines and
  applying the parser to the result yields the original mapping.
\<close>

theorem roundtrip_trimmed_entries:
  assumes "distinct (map fst m)"
    and "\<forall>(k, v) \<in> set m. key_plain k \<and> \<not> startswith_hash k \<and> strip k = k \<and>
                           CHR 0x0A \<notin> set v \<and> strip v = v"
  shows "parse_data (spec_serialize m) = Inr m"
proof (cases "m = []")
  case True
  then show ?thesis by (simp add: spec_serialize_def parse_empty)
next
  case False
  from assms(2) have ok: "\<forall>kv \<in> set m. roundtrip_entry kv"
    by (auto simp: roundtrip_entry_def)
  from parse_lines_entries [OF ok, of "[]"] assms(1)
  show ?thesis
    by (simp add: parse_data_def split_strip_serialize [OF ok False])
qed

theorem roundtrip_trimmed_entries_witness:
  "distinct (map fst [(''SESSION_REMAINING'', ''42''), (''NOTE'', ''a=b c'')]) \<and>
   roundtrip_entry (''SESSION_REMAINING'', ''42'') \<and>
   roundtrip_entry (''NOTE'', ''a=b c'') \<and>
   parse_data (spec_serialize [(''SESSION_REMAINING'', ''42''), (''NOTE'', ''a=b c'')]) =
     Inr [(''SESSION_REMAINING'', ''42''), (''NOTE'', ''a=b c'')]"
proof -
  have d: "distinct (map fst [(''SESSION_REMAINING'', ''42''), (''NOTE'', ''a=b c'')])"
    by simp
  have e: "roundtrip_entry (''SESSION_REMAINING'', ''42'')" "roundtrip_entry (''NOTE'', ''a=b c'')"
    by (simp_all add: roundtrip_entry_def key_plain_def startswith_hash_def strip_def isspace_def)
  then have ok: "\<forall>(k, v) \<in> set [(''SESSION_REMAINING'', ''42''), (''NOTE'', ''a=b c'')].
      key_plain k \<and> \<not> startswith_hash k \<and> strip k = k \<and> CHR 0x0A \<notin> set v \<and> strip v = v"
    by (simp add: roundtrip_entry_def)
  from d e roundtrip_trimmed_entries [OF d ok] show ?thesis by blast
qed

end
